theory Spec2Isabelle
  imports Main "HOL-Library.Sublist" "HOL-Library.AList"
begin

section \<open>The solved artifact: \<open>src/arrays/has_duplicate.py\<close>\<close>

text \<open>
  \<^verbatim>\<open>
  def has_duplicate(nums: list[int]) -> bool:
      s = set()
      for i in nums:
          if i in s: return True
          s.add(i)
      return False
  \<close>
  The loop carries the set \<open>s\<close> of the values seen so far; the early \<open>return True\<close>
  ends it.
\<close>

fun has_duplicate_loop :: "int set \<Rightarrow> int list \<Rightarrow> bool" where
  "has_duplicate_loop s [] = False"
| "has_duplicate_loop s (i # nums) =
     (if i \<in> s then True else has_duplicate_loop (insert i s) nums)"

definition has_duplicate :: "int list \<Rightarrow> bool" where
  "has_duplicate nums = has_duplicate_loop {} nums"

section \<open>Python strings\<close>

text \<open>
  A Python \<open>str\<close> is modelled as a \<^typ>\<open>string\<close>; a character stands for the code
  point of the same number (0 to 255). \<open>s.startswith(p)\<close> and \<open>s.endswith(p)\<close> are
  \<^const>\<open>prefix\<close> and \<^const>\<open>suffix\<close> with the arguments exchanged.
\<close>

definition startswith :: "string \<Rightarrow> string \<Rightarrow> bool" where
  "startswith s p = prefix p s"

definition endswith :: "string \<Rightarrow> string \<Rightarrow> bool" where
  "endswith s p = suffix p s"

text \<open>
  \<open>s.replace(old, new)\<close> replaces every occurrence of \<open>old\<close>, scanning from the left and
  resuming after each replaced occurrence (occurrences found do not overlap, and the text
  put in is not scanned again). For the empty \<open>old\<close> Python puts \<open>new\<close> before every
  character and at the end.
\<close>

function replace :: "string \<Rightarrow> string \<Rightarrow> string \<Rightarrow> string" where
  "replace old new [] = (if old = [] then new else [])"
| "replace old new (c # cs) =
     (if old = [] then new @ c # replace old new cs
      else if prefix old (c # cs) then new @ replace old new (drop (length old) (c # cs))
      else c # replace old new cs)"
  by pat_completeness auto
termination
  by (relation "measure (\<lambda>(old, new, s). length s)") auto

text \<open>\<open>sep.join(xs)\<close>.\<close>

fun join :: "string \<Rightarrow> string list \<Rightarrow> string" where
  "join sep [] = []"
| "join sep [x] = x"
| "join sep (x # y # ys) = x @ sep @ join sep (y # ys)"

text \<open>\<open>str(n)\<close> of a natural number (the positions that \<open>enumerate\<close> counts), in decimal.\<close>

function str_nat :: "nat \<Rightarrow> string" where
  "str_nat n =
     (if n < 10 then [''0123456789'' ! n]
      else str_nat (n div 10) @ [''0123456789'' ! (n mod 10)])"
  by pat_completeness auto
termination
  by (relation "measure id") auto

declare str_nat.simps [simp del]

definition str_int :: "int \<Rightarrow> string" where
  "str_int i = (if i < 0 then ''-'' @ str_nat (nat (- i)) else str_nat (nat i))"

subsection \<open>Literal values and \<open>repr\<close>\<close>

text \<open>
  The values of a test case are the literals the generator can embed: \<open>None\<close>, booleans,
  integers, strings and lists of these. \<open>repr\<close> of a string follows CPython: the
  quote is \<open>'\<close> unless the string has a \<open>'\<close> and no \<open>"\<close>; the quote and the backslash are
  escaped, tab, newline and carriage return are written \<open>\t\<close>, \<open>\n\<close>, \<open>\r\<close>, and every
  other code point that is not printable is written \<open>\xhh\<close>.
\<close>

datatype pyval =
    PyNone
  | PyBool bool
  | PyInt int
  | PyStr string
  | PyList "pyval list"

definition hex2 :: "nat \<Rightarrow> string" where
  "hex2 n = [''0123456789abcdef'' ! (n div 16 mod 16), ''0123456789abcdef'' ! (n mod 16)]"

definition printable :: "char \<Rightarrow> bool" where
  "printable c =
     (let n = (of_char c :: nat)
      in (32 \<le> n \<and> n < 127) \<or> (161 \<le> n \<and> n \<noteq> 173))"

definition repr_char :: "char \<Rightarrow> char \<Rightarrow> string" where
  "repr_char quote c =
     (if c = quote \<or> c = CHR 0x5C then [CHR 0x5C, c]
      else if c = CHR 0x09 then [CHR 0x5C, CHR ''t'']
      else if c = CHR 0x0A then [CHR 0x5C, CHR ''n'']
      else if c = CHR 0x0D then [CHR 0x5C, CHR ''r'']
      else if printable c then [c]
      else [CHR 0x5C, CHR ''x''] @ hex2 (of_char c))"

definition repr_str :: "string \<Rightarrow> string" where
  "repr_str s =
     (let quote = (if CHR 0x27 \<in> set s \<and> CHR 0x22 \<notin> set s then CHR 0x22 else CHR 0x27)
      in [quote] @ concat (map (repr_char quote) s) @ [quote])"

fun repr :: "pyval \<Rightarrow> string" where
  "repr PyNone = ''None''"
| "repr (PyBool b) = (if b then ''True'' else ''False'')"
| "repr (PyInt i) = str_int i"
| "repr (PyStr s) = repr_str s"
| "repr (PyList vs) = ''['' @ join '', '' (map repr vs) @ '']''"

section \<open>Paths and the file system\<close>

text \<open>
  The \<open>os.path\<close> functions are those of \<open>posixpath\<close>; the separator \<open>os.sep\<close> is \<open>/\<close>.
\<close>

definition os_sep :: string where
  "os_sep = ''/''"

definition os_path_join :: "string \<Rightarrow> string \<Rightarrow> string" where
  "os_path_join a b =
     (if startswith b os_sep then b
      else if a = [] \<or> endswith a os_sep then a @ b
      else a @ os_sep @ b)"

text \<open>
  \<open>posixpath.split\<close>: the head is the path up to and with its last \<open>/\<close>, the tail what
  follows. \<open>dirname\<close> strips the slashes that end the head unless the head is made of
  slashes only; \<open>basename\<close> is the tail.
\<close>

definition path_head :: "string \<Rightarrow> string" where
  "path_head p = rev (dropWhile (\<lambda>c. c \<noteq> CHR ''/'') (rev p))"

definition os_path_basename :: "string \<Rightarrow> string" where
  "os_path_basename p = rev (takeWhile (\<lambda>c. c \<noteq> CHR ''/'') (rev p))"

definition os_path_dirname :: "string \<Rightarrow> string" where
  "os_path_dirname p =
     (let head = path_head p
      in if head \<noteq> [] \<and> \<not> list_all (\<lambda>c. c = CHR ''/'') head
         then rev (dropWhile (\<lambda>c. c = CHR ''/'') (rev head))
         else head)"

text \<open>
  The file system is the list of its regular files, each a path (relative to the working
  directory, normalised, components joined by \<open>/\<close>) with its text. Directories are
  implicit: a directory exists where a file lies under it, so \<open>os.makedirs(...,
  exist_ok=True)\<close> changes nothing here. The model covers the runs in which the
  operating system refuses no operation: no path tested, written or removed names a
  directory, no ancestor of a written path is a regular file, and permissions suffice.
  The order of the list is the order in which \<open>os.walk\<close> meets the files.
\<close>

type_synonym fs = "(string \<times> string) list"

definition os_path_exists :: "string \<Rightarrow> fs \<Rightarrow> bool" where
  "os_path_exists p fs = (map_of fs p \<noteq> None)"

text \<open>\<open>open(p, "w").write(text)\<close> and \<open>os.remove(p)\<close>.\<close>

definition write_file :: "string \<Rightarrow> string \<Rightarrow> fs \<Rightarrow> fs" where
  "write_file p text fs = AList.update p text fs"

definition os_remove :: "string \<Rightarrow> fs \<Rightarrow> fs" where
  "os_remove p fs = AList.delete p fs"

text \<open>
  \<open>os.walk(root)\<close> gives, for every file under \<open>root\<close>, the directory that holds it
  (\<open>dirpath\<close>, which starts with \<open>root\<close>) and its name. A missing root gives nothing.
  \<open>os.path.relpath(path, start)\<close> is only called on such files, where it takes
  \<open>start\<close> and the separator after it off the path.
\<close>

definition os_walk :: "string \<Rightarrow> fs \<Rightarrow> (string \<times> string) list" where
  "os_walk root fs =
     map (\<lambda>p. (butlast (path_head p), os_path_basename p))
       (filter (\<lambda>p. startswith p (root @ os_sep)) (map fst fs))"

definition os_path_relpath :: "string \<Rightarrow> string \<Rightarrow> string" where
  "os_path_relpath path start =
     (if startswith path (start @ os_sep) then drop (length start + 1) path else path)"

section \<open>The generator: \<open>src/generate_tests.py\<close>\<close>

subsection \<open>The two enumerations\<close>

definition get_src_files :: "string \<Rightarrow> fs \<Rightarrow> string list" where
  "get_src_files root_dir fs =
     map (\<lambda>(dirpath, filename).
            replace os_sep ''/''
              (replace ''.py'' '''' (os_path_relpath (os_path_join dirpath filename) root_dir)))
       (filter (\<lambda>(dirpath, filename).
                  endswith filename ''.py'' \<and> filename \<noteq> ''__init__.py'')
          (os_walk root_dir fs))"

definition get_test_files :: "string \<Rightarrow> fs \<Rightarrow> string list" where
  "get_test_files root_dir fs =
     map (\<lambda>(dirpath, filename).
            replace os_sep ''/''
              (replace ''test_'' ''''
                (replace ''.py'' ''''
                  (os_path_relpath (os_path_join dirpath filename) root_dir))))
       (filter (\<lambda>(dirpath, filename).
                  startswith filename ''test_'' \<and> endswith filename ''.py'')
          (os_walk root_dir fs))"

subsection \<open>The spec table and the state of a run\<close>

text \<open>
  \<open>test_specifications\<close> is imported from \<open>test_specs\<close>, which is not part of the
  sources at hand: it is a parameter, a dictionary from solution identifiers to entries
  with a \<open>function_name\<close> and its \<open>test_cases\<close>, each case a dictionary \<open>input\<close> (in
  insertion order) and an \<open>output\<close>.
\<close>

record test_case =
  case_input :: "(string \<times> pyval) list"
  case_output :: pyval

record test_spec =
  function_name :: string
  test_cases :: "test_case list"

type_synonym spec_table = "string \<rightharpoonup> test_spec"

text \<open>
  What a run can change: the files, the lines printed, and the source files whose code
  \<open>exec_module\<close> has run (in order).
\<close>

record state =
  files :: fs
  stdout :: "string list"
  loaded :: "string list"

definition print :: "string \<Rightarrow> state \<Rightarrow> state" where
  "print line st = st\<lparr>stdout := stdout st @ [line]\<rparr>"

text \<open>
  An exception is given by the name of its class, by whether it is an instance of
  \<open>Exception\<close> (what \<open>except Exception\<close> tests), and by the text that \<open>str\<close> gives it.
  \<open>SystemExit\<close>, \<open>KeyboardInterrupt\<close>, \<open>GeneratorExit\<close> and the classes that a program
  derives from \<open>BaseException\<close> itself are no instances of \<open>Exception\<close>.
\<close>

datatype py_exception =
  PyExc (exc_class: string) (is_Exception: bool) (exc_str: string)

definition SystemExit :: py_exception where
  "SystemExit = PyExc ''SystemExit'' False []"

text \<open>
  Running the code of a source file is Python's own work: it is a parameter, a function
  from the module name and the text of the file to the names the module has as attributes
  afterwards, or the exception that leaves it. It is taken to change no file of the model
  and to print nothing. (The bytecode caches that Python keeps under \<open>__pycache__\<close> are no
  files of the model: their names do not end in \<open>.py\<close>, so neither enumeration meets
  them, and no path that the generator tests, writes or removes names one.)
\<close>

datatype exec_result =
    Module "string list"
  | Raises py_exception

type_synonym exec_module = "string \<Rightarrow> string \<Rightarrow> exec_result"

subsection \<open>\<open>validate_function\<close>\<close>

text \<open>
  \<open>spec_from_file_location\<close> and \<open>module_from_spec\<close> build the description and the
  empty module for a file named \<open>.py\<close> and raise nothing; they stand before the \<open>try\<close>.
  \<open>exec_module\<close> runs the text of the file, inside the \<open>try\<close>, and \<open>hasattr\<close> looks the
  name up among the attributes of the module. The parameter \<open>function_name\<close> is written
  \<open>fname\<close> here, \<open>function_name\<close> being the field of a spec entry.
\<close>

definition validate_function ::
  "exec_module \<Rightarrow> string \<Rightarrow> string \<Rightarrow> bool \<Rightarrow> state \<Rightarrow> (py_exception + bool) \<times> state" where
  "validate_function exec src_path fname verbose st =
     (let full_src_path = os_path_join ''src'' (src_path @ ''.py'')
      in case map_of (files st) full_src_path of
           None \<Rightarrow> (Inr False, st)
         | Some source \<Rightarrow>
             (let st1 = st\<lparr>loaded := loaded st @ [full_src_path]\<rparr>
              in case exec (replace ''/'' ''.'' src_path) source of
                   Module attrs \<Rightarrow>
                     (let exists = (fname \<in> set attrs)
                      in (Inr exists,
                          if verbose \<and> \<not> exists
                          then print (''Warning: '' @ fname @ '' not found in ''
                                       @ full_src_path) st1
                          else st1))
                 | Raises e \<Rightarrow>
                     if is_Exception e
                     then (Inr False,
                           if verbose
                           then print (''Error loading '' @ full_src_path @ '': '' @ exc_str e)
                                  st1
                           else st1)
                     else (Inl e, st1)))"

subsection \<open>\<open>generate_test_file\<close>\<close>

text \<open>
  The text of a test file: the import line, then the loop over the enumerated cases, which
  appends two lines and a blank line for each.
\<close>

definition input_args :: "test_case \<Rightarrow> string" where
  "input_args c = join '', '' (map (\<lambda>(k, v). k @ ''='' @ repr v) (case_input c))"

definition append_case :: "string \<Rightarrow> nat \<Rightarrow> test_case \<Rightarrow> string \<Rightarrow> string" where
  "append_case fname i c content =
     (content @ ''def test_case_'' @ str_nat i @ ''():\<newline>'')
     @ ''    assert '' @ fname @ ''('' @ input_args c @ '') == ''
     @ repr (case_output c) @ ''\<newline>\<newline>''"

fun render_cases :: "string \<Rightarrow> nat \<Rightarrow> test_case list \<Rightarrow> string \<Rightarrow> string" where
  "render_cases fname i [] content = content"
| "render_cases fname i (c # cases) content =
     render_cases fname (Suc i) cases (append_case fname i c content)"

definition render :: "string \<Rightarrow> test_spec \<Rightarrow> string" where
  "render src_path specs =
     (let import_path = ''src.'' @ replace ''/'' ''.'' src_path;
          content = ''from '' @ import_path @ '' import '' @ function_name specs
                    @ ''\<newline>\<newline>''
      in render_cases (function_name specs) 0 (test_cases specs) content)"

definition test_filepath_of :: "string \<Rightarrow> string" where
  "test_filepath_of src_path =
     (let test_dir = os_path_join ''tests'' (os_path_dirname src_path);
          test_filename = ''test_'' @ os_path_basename src_path @ ''.py''
      in os_path_join test_dir test_filename)"

definition generate_test_file ::
  "exec_module \<Rightarrow> string \<Rightarrow> test_spec \<Rightarrow> bool \<Rightarrow> bool \<Rightarrow> state \<Rightarrow> py_exception option \<times> state" where
  "generate_test_file exec src_path specs force verbose st =
     (let test_filepath = test_filepath_of src_path
      in if os_path_exists test_filepath (files st) \<and> \<not> force
         then (None,
               if verbose then print (''Skipping '' @ test_filepath @ '' (already exists)'') st
               else st)
         else
           (case validate_function exec src_path (function_name specs) verbose st of
                 (Inl e, st1) \<Rightarrow> (Some e, st1)
               | (Inr False, st1) \<Rightarrow>
                   (None, print (''Error: '' @ function_name specs @ '' not found in src/''
                                  @ src_path @ ''.py, skipping'') st1)
               | (Inr True, st1) \<Rightarrow>
                   (let content = render src_path specs;
                        st2 = st1\<lparr>files := write_file test_filepath content (files st1)\<rparr>
                    in (None,
                        print ((if force \<and> os_path_exists test_filepath (files st2)
                                then ''Regenerated'' else ''Generated'')
                               @ '' '' @ test_filepath) st2))))"

subsection \<open>\<open>clean_orphaned_tests\<close>\<close>

text \<open>The body of the loop, for one test identifier, and the loop over their list.\<close>

definition clean_orphan :: "string list \<Rightarrow> bool \<Rightarrow> string \<Rightarrow> state \<Rightarrow> state" where
  "clean_orphan src_files verbose test_path st =
     (if test_path \<notin> set src_files
      then (let test_filepath = os_path_join ''tests'' (test_path @ ''.py'')
            in if os_path_exists test_filepath (files st)
               then print (''Removed orphaned test file: '' @ test_filepath)
                      (st\<lparr>files := os_remove test_filepath (files st)\<rparr>)
               else if verbose
               then print (''Test file '' @ test_filepath @ '' already removed'') st
               else st)
      else st)"

definition clean_orphaned_tests :: "string list \<Rightarrow> bool \<Rightarrow> state \<Rightarrow> state" where
  "clean_orphaned_tests src_files verbose st =
     (let test_files = get_test_files ''tests'' (files st)
      in fold (clean_orphan src_files verbose) test_files st)"

subsection \<open>\<open>main\<close>\<close>

text \<open>
  The loop of \<open>main\<close> over the solution identifiers; an exception that leaves
  \<open>generate_test_file\<close> ends it. The flags \<open>--force\<close> and \<open>--verbose\<close> are arguments.
\<close>

fun generate_all ::
  "exec_module \<Rightarrow> spec_table \<Rightarrow> bool \<Rightarrow> bool \<Rightarrow> string list \<Rightarrow> state \<Rightarrow> py_exception option \<times> state" where
  "generate_all exec test_specifications force verbose [] st = (None, st)"
| "generate_all exec test_specifications force verbose (src_path # src_files) st =
     (case test_specifications src_path of
        Some specs \<Rightarrow>
          (case generate_test_file exec src_path specs force verbose st of
             (None, st1) \<Rightarrow> generate_all exec test_specifications force verbose src_files st1
           | (Some e, st1) \<Rightarrow> (Some e, st1))
      | None \<Rightarrow>
          generate_all exec test_specifications force verbose src_files
            (if verbose then print (''No test specs found for src/'' @ src_path @ ''.py'') st
             else st))"

definition main ::
  "exec_module \<Rightarrow> spec_table \<Rightarrow> bool \<Rightarrow> bool \<Rightarrow> state \<Rightarrow> py_exception option \<times> state" where
  "main exec test_specifications force verbose st =
     (let src_files = get_src_files ''src'' (files st);
          st1 = (if verbose
                 then print (''Found source files: '' @ repr (PyList (map PyStr src_files))) st
                 else st);
          st2 = clean_orphaned_tests src_files verbose st1
      in generate_all exec test_specifications force verbose src_files st2)"

subsection \<open>An instance of the parameters\<close>

text \<open>
  For the concrete runs below: an \<open>exec_module\<close> that gives three source texts the result
  Python gives them (a module that defines \<open>has_duplicate\<close>, one that defines only \<open>x\<close>,
  one whose code leaves through \<open>SystemExit\<close>) and takes any other text for a syntax
  error; and a spec table with the entry of \<open>arrays/has_duplicate\<close> and its one case.
\<close>

definition demo_exec :: exec_module where
  "demo_exec name source =
     (if source = ''def has_duplicate(nums): pass''
      then Module [''__name__'', ''__file__'', ''has_duplicate'']
      else if source = ''x = 1'' then Module [''__name__'', ''__file__'', ''x'']
      else if source = ''raise SystemExit'' then Raises SystemExit
      else Raises (PyExc ''SyntaxError'' True ''invalid syntax''))"

definition demo_spec :: test_spec where
  "demo_spec =
     \<lparr>function_name = ''has_duplicate'',
      test_cases =
        [\<lparr>case_input = [(''nums'', PyList [PyInt 1, PyInt 2, PyInt 3, PyInt 1])],
          case_output = PyBool True\<rparr>]\<rparr>"

definition demo_specs :: spec_table where
  "demo_specs = [''arrays/has_duplicate'' \<mapsto> demo_spec]"

definition demo_text :: string where
  "demo_text =
     ''from src.arrays.has_duplicate import has_duplicate\<newline>\<newline>''
     @ ''def test_case_0():\<newline>''
     @ ''    assert has_duplicate(nums=[1, 2, 3, 1]) == True\<newline>\<newline>''"

text \<open>
  Four states: the solution alone; the solution with a test file left by an earlier run;
  a solution with a syntax error; a solution that exits while it is loaded.
\<close>

definition demo_fresh :: state where
  "demo_fresh =
     \<lparr>files = [(''src/arrays/has_duplicate.py'', ''def has_duplicate(nums): pass'')],
      stdout = [], loaded = []\<rparr>"

definition demo_stale :: state where
  "demo_stale =
     \<lparr>files = [(''src/arrays/has_duplicate.py'', ''def has_duplicate(nums): pass''),
               (''tests/arrays/test_has_duplicate.py'', ''old'')],
      stdout = [], loaded = []\<rparr>"

definition demo_broken :: state where
  "demo_broken =
     \<lparr>files = [(''src/arrays/has_duplicate.py'', ''def ('')], stdout = [], loaded = []\<rparr>"

definition demo_exiting :: state where
  "demo_exiting =
     \<lparr>files = [(''src/arrays/has_duplicate.py'', ''raise SystemExit'')],
      stdout = [], loaded = []\<rparr>"

text \<open>
  The state that a first run without flags leaves from \<open>demo_fresh\<close>; and a spec table
  and a state for a solution whose file name starts with \<open>test_\<close>.
\<close>

definition demo_done :: state where
  "demo_done =
     \<lparr>files = [(''src/arrays/has_duplicate.py'', ''def has_duplicate(nums): pass''),
               (''tests/arrays/test_has_duplicate.py'', demo_text)],
      stdout = [''Generated tests/arrays/test_has_duplicate.py''],
      loaded = [''src/arrays/has_duplicate.py'']\<rparr>"

definition demo_specs_x :: spec_table where
  "demo_specs_x = [''test_a'' \<mapsto> \<lparr>function_name = ''x'', test_cases = []\<rparr>]"

definition demo_prefixed :: state where
  "demo_prefixed =
     \<lparr>files = [(''src/test_a.py'', ''x = 1''), (''tests/a.py'', ''kept'')],
      stdout = [], loaded = []\<rparr>"

text \<open>
  A state with a second solution, one that has no entry in the spec table; and a spec
  entry with three cases whose values are strings with quotes and escapes, a negative
  integer, \<open>None\<close>, booleans and nested lists.
\<close>

definition demo_two :: state where
  "demo_two =
     \<lparr>files = [(''src/a.py'', ''x = 1''),
               (''src/arrays/has_duplicate.py'', ''def has_duplicate(nums): pass'')],
      stdout = [], loaded = []\<rparr>"

definition demo_rich :: test_spec where
  "demo_rich =
     \<lparr>function_name = ''f'',
      test_cases =
        [\<lparr>case_input = [(''s'', PyStr ''ab''), (''n'', PyInt (- 12))],
          case_output = PyNone\<rparr>,
         \<lparr>case_input =
            [(''xs'', PyList [PyList [], PyList [PyBool False, PyStr [CHR ''i'', CHR 0x27]]])],
          case_output =
            PyStr [CHR 0x09, CHR 0x0A, CHR 0x0D, CHR 0x5C, CHR 0x22, CHR 0x27, CHR 0x01,
                   CHR 0x7F, CHR 0x8B, CHR 0xA0, CHR 0xAD, CHR 0xE9, CHR '' '', CHR ''~'']\<rparr>,
         \<lparr>case_input = [], case_output = PyInt 120\<rparr>]\<rparr>"

definition demo_rich_text :: string where
  "demo_rich_text =
     ''from src.a.b.c import f\<newline>''
     @ ''\<newline>''
     @ ''def test_case_0():\<newline>''
     @ ''    assert f(s='' @ [CHR 0x27] @ ''ab'' @ [CHR 0x27] @ '', n=-12) == None\<newline>''
     @ ''\<newline>''
     @ ''def test_case_1():\<newline>''
     @ ''    assert f(xs=[[], [False, '' @ [CHR 0x22] @ ''i'' @ [CHR 0x27, CHR 0x22] @ '']]) == ''
     @ [CHR 0x27]
     @ [CHR 0x5C] @ ''t'' @ [CHR 0x5C] @ ''n'' @ [CHR 0x5C] @ ''r'' @ [CHR 0x5C, CHR 0x5C]
     @ [CHR 0x22] @ [CHR 0x5C, CHR 0x27]
     @ [CHR 0x5C] @ ''x01'' @ [CHR 0x5C] @ ''x7f'' @ [CHR 0x5C] @ ''x8b''
     @ [CHR 0x5C] @ ''xa0'' @ [CHR 0x5C] @ ''xad'' @ [CHR 0xE9] @ '' ~''
     @ [CHR 0x27] @ ''\<newline>''
     @ ''\<newline>''
     @ ''def test_case_2():\<newline>''
     @ ''    assert f() == 120\<newline>''
     @ ''\<newline>''"

subsection \<open>Reading literals back\<close>

text \<open>
  What the rendered names and literals mean to Python, to state that they are the right
  ones: the number that a string of decimal digits denotes, the integer that a decimal
  literal with an optional sign denotes, and the string that a quoted literal denotes.
  The reader of string literals knows the escapes \<open>\\\<close>, \<open>\'\<close>, \<open>\"\<close>, \<open>\t\<close>, \<open>\n\<close>, \<open>\r\<close> and
  \<open>\xhh\<close>; it refuses a literal that does not end at its closing quote, one that holds a raw
  newline, and any other escape.
\<close>

definition is_digit :: "char \<Rightarrow> bool" where
  "is_digit c = (48 \<le> (of_char c :: nat) \<and> (of_char c :: nat) \<le> 57)"

definition decimal_value :: "string \<Rightarrow> nat" where
  "decimal_value s = foldl (\<lambda>a c. 10 * a + ((of_char c :: nat) - 48)) 0 s"

definition int_literal_value :: "string \<Rightarrow> int" where
  "int_literal_value s =
     (case s of
        [] \<Rightarrow> 0
      | c # ds \<Rightarrow> if c = CHR ''-'' then - int (decimal_value ds) else int (decimal_value s))"

definition hex_value :: "char \<Rightarrow> nat option" where
  "hex_value c =
     (let n = (of_char c :: nat)
      in if 48 \<le> n \<and> n \<le> 57 then Some (n - 48)
         else if 97 \<le> n \<and> n \<le> 102 then Some (n - 87)
         else None)"

fun read_body :: "char \<Rightarrow> string \<Rightarrow> string option" where
  "read_body q [] = None"
| "read_body q [c] = (if c = q then Some [] else None)"
| "read_body q (c # d # cs) =
     (if c = q \<or> c = CHR 0x0A then None
      else if c = CHR 0x5C then
        (if d = CHR 0x5C \<or> d = CHR 0x27 \<or> d = CHR 0x22
         then map_option ((#) d) (read_body q cs)
         else if d = CHR ''t'' then map_option ((#) (CHR 0x09)) (read_body q cs)
         else if d = CHR ''n'' then map_option ((#) (CHR 0x0A)) (read_body q cs)
         else if d = CHR ''r'' then map_option ((#) (CHR 0x0D)) (read_body q cs)
         else if d = CHR ''x'' then
           (case cs of
              h # l # cs' \<Rightarrow>
                (case (hex_value h, hex_value l) of
                   (Some a, Some b) \<Rightarrow>
                     map_option ((#) (char_of (16 * a + b))) (read_body q cs')
                 | _ \<Rightarrow> None)
            | _ \<Rightarrow> None)
         else None)
      else map_option ((#) c) (read_body q (d # cs)))"

definition str_literal_value :: "string \<Rightarrow> string option" where
  "str_literal_value s =
     (case s of
        [] \<Rightarrow> None
      | q # body \<Rightarrow> if q = CHR 0x27 \<or> q = CHR 0x22 then read_body q body else None)"

text \<open>
  The state in which \<open>main\<close> enters its loop: after the enumeration of the solutions, the
  line printed under \<open>--verbose\<close>, and the sweep.
\<close>

definition loop_entry :: "bool \<Rightarrow> state \<Rightarrow> state" where
  "loop_entry verbose st =
     (let src_files = get_src_files ''src'' (files st);
          st1 = (if verbose
                 then print (''Found source files: '' @ repr (PyList (map PyStr src_files))) st
                 else st)
      in clean_orphaned_tests src_files verbose st1)"

subsection \<open>Notions for the statements about whole runs\<close>

text \<open>
  Two file systems agree on the solutions: the same files under \<open>src/\<close>, met in the same
  order, with the same text.
\<close>

definition src_frame :: "fs \<Rightarrow> fs \<Rightarrow> bool" where
  "src_frame fs fs' =
     ((\<forall>p. startswith p ''src/'' \<longrightarrow> map_of fs p = map_of fs' p)
      \<and> os_walk ''src'' fs = os_walk ''src'' fs')"

text \<open>
  A solution is settled in a state when, if it has an entry in the spec table, its target
  test file exists or its validation returns False: \<open>generate_test_file\<close> without
  \<open>force\<close> then writes nothing for it.
\<close>

definition settled :: "exec_module \<Rightarrow> spec_table \<Rightarrow> string \<Rightarrow> state \<Rightarrow> bool" where
  "settled exec test_specifications src_path st =
     (case test_specifications src_path of
        None \<Rightarrow> True
      | Some specs \<Rightarrow>
          os_path_exists (test_filepath_of src_path) (files st)
          \<or> fst (validate_function exec src_path (function_name specs) False st) = Inr False)"

section \<open>Properties of \<open>has_duplicate\<close>\<close>

lemma has_duplicate_loop_iff:
  "has_duplicate_loop s nums \<longleftrightarrow> (\<not> distinct nums \<or> set nums \<inter> s \<noteq> {})"
  by (induction nums arbitrary: s) auto

lemma not_distinct_iff_positions:
  "\<not> distinct xs \<longleftrightarrow> (\<exists>i j. i < j \<and> j < length xs \<and> xs ! i = xs ! j)"
proof
  assume "\<not> distinct xs"
  then obtain i j where "i < length xs" "j < length xs" "i \<noteq> j" "xs ! i = xs ! j"
    unfolding distinct_conv_nth by blast
  then show "\<exists>i j. i < j \<and> j < length xs \<and> xs ! i = xs ! j"
    by (cases "i < j") (metis, metis linorder_neqE_nat)
next
  assume "\<exists>i j. i < j \<and> j < length xs \<and> xs ! i = xs ! j"
  then obtain i j where "i < j" "j < length xs" "xs ! i = xs ! j" by blast
  then show "\<not> distinct xs"
    using nth_eq_iff_index_eq [of xs i j] by auto
qed

text \<open>
  C10. For every list of integers, \<open>has_duplicate\<close> returns True exactly when some value
  occurs at two positions \<open>i < j\<close> of the list, and False exactly when the elements are
  pairwise distinct.
\<close>

theorem has_duplicate_correct:
  "(has_duplicate nums \<longleftrightarrow> (\<exists>i j. i < j \<and> j < length nums \<and> nums ! i = nums ! j))
   \<and> (has_duplicate nums = False \<longleftrightarrow> distinct nums)"
proof -
  have dup: "has_duplicate nums \<longleftrightarrow> \<not> distinct nums"
    by (simp add: has_duplicate_def has_duplicate_loop_iff)
  show ?thesis
    unfolding dup using not_distinct_iff_positions [of nums] by blast
qed

section \<open>Rendering\<close>

lemma render_cases_concat:
  "render_cases fname i cs content =
     content @ concat (map (\<lambda>(j, c). append_case fname j c []) (enumerate i cs))"
  by (induction cs arbitrary: i content) (simp_all add: append_case_def)

subsection \<open>Numerals and literals read back\<close>

lemma less_10_cases:
  "k < (10::nat) \<Longrightarrow>
   k = 0 \<or> k = 1 \<or> k = 2 \<or> k = 3 \<or> k = 4 \<or> k = 5 \<or> k = 6 \<or> k = 7 \<or> k = 8 \<or> k = 9"
  by presburger

lemma less_16_cases:
  "k < (16::nat) \<Longrightarrow>
   k = 0 \<or> k = 1 \<or> k = 2 \<or> k = 3 \<or> k = 4 \<or> k = 5 \<or> k = 6 \<or> k = 7 \<or> k = 8 \<or> k = 9
   \<or> k = 10 \<or> k = 11 \<or> k = 12 \<or> k = 13 \<or> k = 14 \<or> k = 15"
  by presburger

lemma digit_char:
  assumes "k < 10"
  shows "(of_char (''0123456789'' ! k) :: nat) = 48 + k"
  using less_10_cases [OF assms] by (elim disjE) simp_all

lemma digit_char_zero:
  assumes "k < 10"
  shows "(''0123456789'' ! k = CHR ''0'') = (k = 0)"
  using less_10_cases [OF assms] by (elim disjE) simp_all

lemma str_nat_small: "n < 10 \<Longrightarrow> str_nat n = [''0123456789'' ! n]"
  by (subst str_nat.simps) simp

lemma str_nat_large:
  "\<not> n < 10 \<Longrightarrow> str_nat n = str_nat (n div 10) @ [''0123456789'' ! (n mod 10)]"
  by (subst str_nat.simps) simp

lemma decimal_value_snoc:
  "decimal_value (s @ [c]) = 10 * decimal_value s + ((of_char c :: nat) - 48)"
  by (simp add: decimal_value_def)

lemma str_nat_value: "decimal_value (str_nat n) = n"
proof (induction n rule: str_nat.induct)
  case (1 n)
  show ?case
  proof (cases "n < 10")
    case True
    then show ?thesis
      unfolding str_nat_small [OF True] by (simp add: decimal_value_def digit_char)
  next
    case False
    then have "decimal_value (str_nat (n div 10)) = n div 10"
      using "1.IH" by simp
    then show ?thesis
      unfolding str_nat_large [OF False] by (simp add: decimal_value_snoc digit_char)
  qed
qed

lemma str_nat_digits: "list_all is_digit (str_nat n)"
proof (induction n rule: str_nat.induct)
  case (1 n)
  show ?case
  proof (cases "n < 10")
    case True
    then show ?thesis
      unfolding str_nat_small [OF True] by (simp add: is_digit_def digit_char)
  next
    case False
    then have "list_all is_digit (str_nat (n div 10))"
      using "1.IH" by simp
    moreover have "is_digit (''0123456789'' ! (n mod 10))"
      by (simp add: is_digit_def digit_char)
    ultimately show ?thesis
      unfolding str_nat_large [OF False] by simp
  qed
qed

lemma str_nat_nonempty: "str_nat n \<noteq> []"
  by (cases "n < 10") (simp_all add: str_nat_small str_nat_large)

lemma str_nat_leading: "(hd (str_nat n) = CHR ''0'') = (n = 0)"
proof (induction n rule: str_nat.induct)
  case (1 n)
  show ?case
  proof (cases "n < 10")
    case True
    then show ?thesis
      unfolding str_nat_small [OF True] by (simp add: digit_char_zero)
  next
    case False
    then have "(hd (str_nat (n div 10)) = CHR ''0'') = (n div 10 = 0)"
      using "1.IH" by simp
    moreover have "n div 10 \<noteq> 0" "n \<noteq> 0"
      using False by simp_all
    ultimately show ?thesis
      using str_nat_nonempty [of "n div 10"]
      unfolding str_nat_large [OF False] by simp
  qed
qed

lemma str_int_value: "int_literal_value (str_int i) = i"
proof (cases "i < 0")
  case True
  then show ?thesis
    by (simp add: str_int_def int_literal_value_def str_nat_value)
next
  case False
  obtain c cs where s: "str_nat (nat i) = c # cs"
    using str_nat_nonempty [of "nat i"] by (cases "str_nat (nat i)") auto
  have "is_digit c"
    using str_nat_digits [of "nat i"] s by simp
  then have "c \<noteq> CHR ''-''"
    by (auto simp add: is_digit_def)
  then show ?thesis
    using False s str_nat_value [of "nat i"]
    by (simp add: str_int_def int_literal_value_def)
qed

lemma hex_char:
  assumes "k < 16"
  shows "hex_value (''0123456789abcdef'' ! k) = Some k"
  using less_16_cases [OF assms] by (elim disjE) (simp_all add: hex_value_def)

lemma hex2_value:
  fixes c :: char
  assumes "hex2 (of_char c) = [h, l]"
  shows "hex_value h = Some ((of_char c :: nat) div 16)
         \<and> hex_value l = Some ((of_char c :: nat) mod 16)"
proof -
  have lt: "(of_char c :: nat) < 256"
    by (simp add: of_char_def)
  then have d: "(of_char c :: nat) div 16 < 16" by presburger
  then have "(of_char c :: nat) div 16 mod 16 = of_char c div 16" by simp
  then have "h = ''0123456789abcdef'' ! ((of_char c :: nat) div 16)"
    "l = ''0123456789abcdef'' ! ((of_char c :: nat) mod 16)"
    using assms by (simp_all add: hex2_def)
  then show ?thesis
    using hex_char [OF d] hex_char [of "(of_char c :: nat) mod 16"] by simp
qed

lemma printable_not_control:
  "printable c \<Longrightarrow> c \<noteq> CHR 0x0A \<and> c \<noteq> CHR 0x09 \<and> c \<noteq> CHR 0x0D"
  by (auto simp add: printable_def Let_def)

lemma read_body_escape:
  assumes "q = CHR 0x27 \<or> q = CHR 0x22"
    and "d = CHR 0x5C \<or> d = CHR 0x27 \<or> d = CHR 0x22"
  shows "read_body q (CHR 0x5C # d # rest) = map_option ((#) d) (read_body q rest)"
  using assms by auto

lemma read_body_plain:
  assumes "c \<noteq> q" and "c \<noteq> CHR 0x0A" and "c \<noteq> CHR 0x5C"
  shows "read_body q (c # rest) = map_option ((#) c) (read_body q rest)"
  using assms by (cases rest) simp_all

lemma read_body_hex:
  fixes c :: char
  assumes "q = CHR 0x27 \<or> q = CHR 0x22"
  shows "read_body q ([CHR 0x5C, CHR ''x''] @ hex2 (of_char c) @ rest)
         = map_option ((#) c) (read_body q rest)"
proof -
  obtain h l where hl: "hex2 (of_char c) = [h, l]"
    by (simp add: hex2_def)
  have v: "hex_value h = Some ((of_char c :: nat) div 16)"
    "hex_value l = Some ((of_char c :: nat) mod 16)"
    using hex2_value [OF hl] by simp_all
  have "char_of (16 * ((of_char c :: nat) div 16) + (of_char c :: nat) mod 16) = c"
    by simp
  then show ?thesis
    using assms by (auto simp add: hl v)
qed

lemma read_body_repr_char:
  assumes q: "q = CHR 0x27 \<or> q = CHR 0x22"
  shows "read_body q (repr_char q c @ rest) = map_option ((#) c) (read_body q rest)"
proof (cases "c = q \<or> c = CHR 0x5C")
  case True
  then have "repr_char q c = [CHR 0x5C, c]"
    by (simp add: repr_char_def)
  moreover have "c = CHR 0x5C \<or> c = CHR 0x27 \<or> c = CHR 0x22"
    using True q by auto
  ultimately show ?thesis
    using read_body_escape [OF q, of c rest] by simp
next
  case False
  note plain = False
  show ?thesis
  proof (cases "c = CHR 0x09 \<or> c = CHR 0x0A \<or> c = CHR 0x0D")
    case True
    then show ?thesis
      using plain q by (auto simp add: repr_char_def)
  next
    case False
    show ?thesis
    proof (cases "printable c")
      case True
      then have "repr_char q c = [c]"
        using plain False by (simp add: repr_char_def)
      then show ?thesis
        using read_body_plain [of c q rest] plain False by simp
    next
      case notp: False
      then have "repr_char q c = [CHR 0x5C, CHR ''x''] @ hex2 (of_char c)"
        using plain False by (simp add: repr_char_def)
      then show ?thesis
        using read_body_hex [OF q, of c rest] by simp
    qed
  qed
qed

lemma read_body_repr:
  assumes q: "q = CHR 0x27 \<or> q = CHR 0x22"
  shows "read_body q (concat (map (repr_char q) s) @ [q]) = Some s"
proof (induction s)
  case Nil
  then show ?case by simp
next
  case (Cons c s)
  have "read_body q (concat (map (repr_char q) (c # s)) @ [q])
        = read_body q (repr_char q c @ (concat (map (repr_char q) s) @ [q]))"
    by simp
  also have "\<dots> = map_option ((#) c) (read_body q (concat (map (repr_char q) s) @ [q]))"
    by (rule read_body_repr_char [OF q])
  finally show ?case
    using Cons.IH by simp
qed

lemma repr_str_value: "str_literal_value (repr_str s) = Some s"
proof -
  define q where "q = (if CHR 0x27 \<in> set s \<and> CHR 0x22 \<notin> set s then CHR 0x22 else CHR 0x27)"
  have q: "q = CHR 0x27 \<or> q = CHR 0x22"
    by (simp add: q_def)
  have "repr_str s = q # (concat (map (repr_char q) s) @ [q])"
    by (simp add: repr_str_def q_def Let_def)
  then show ?thesis
    using read_body_repr [OF q, of s] q by (auto simp add: str_literal_value_def)
qed

subsection \<open>The rendered text\<close>

text \<open>
  C9. The rendered text is one import line that names the entry point and the module path
  (\<open>src.\<close> and the identifier with dots for slashes), one blank line, and then, for every
  case in the order of the list, a test function named by the position of the case that
  asserts that the call of the entry point with the named arguments of the case, each
  rendered by \<open>repr\<close>, equals the \<open>repr\<close> of the expected output, and a blank line.
  The position is written as its decimal numeral: digits only, no leading zero, and the
  numeral denotes the position. The values are written as literals: \<open>None\<close>, \<open>True\<close> and
  \<open>False\<close>; for an integer a literal that denotes it; for a string a quoted literal that
  denotes it; for a list the literals of its elements between brackets, separated by a
  comma and a space. For \<open>arrays/has_duplicate\<close> with the one case \<open>{nums: [1,2,3,1]}\<close>,
  expected \<open>True\<close>, the single test asserts \<open>has_duplicate(nums=[1, 2, 3, 1]) == True\<close>; a
  specification of three cases with two arguments, nested lists, and strings with quotes
  and escapes is rendered as \<open>demo_rich_text\<close>.
\<close>

theorem render_format:
  "render src_path specs =
     ''from src.'' @ replace ''/'' ''.'' src_path @ '' import '' @ function_name specs
       @ ''\<newline>''
     @ ''\<newline>''
     @ concat (map (\<lambda>(i, c).
                 ''def test_case_'' @ str_nat i @ ''():\<newline>''
                 @ ''    assert '' @ function_name specs
                 @ ''('' @ join '', '' (map (\<lambda>(k, v). k @ ''='' @ repr v) (case_input c))
                 @ '') == '' @ repr (case_output c) @ ''\<newline>''
                 @ ''\<newline>'')
         (enumerate 0 (test_cases specs)))
   \<and> decimal_value (str_nat i) = i
   \<and> list_all is_digit (str_nat i)
   \<and> (hd (str_nat i) = CHR ''0'') = (i = 0)
   \<and> repr PyNone = ''None''
   \<and> repr (PyBool b) = (if b then ''True'' else ''False'')
   \<and> int_literal_value (repr (PyInt n)) = n
   \<and> str_literal_value (repr (PyStr s)) = Some s
   \<and> repr (PyList vs) = ''['' @ join '', '' (map repr vs) @ '']''
   \<and> render ''arrays/has_duplicate''
         \<lparr>function_name = ''has_duplicate'',
          test_cases =
            [\<lparr>case_input = [(''nums'', PyList [PyInt 1, PyInt 2, PyInt 3, PyInt 1])],
              case_output = PyBool True\<rparr>]\<rparr>
       = ''from src.arrays.has_duplicate import has_duplicate\<newline>''
         @ ''\<newline>''
         @ ''def test_case_0():\<newline>''
         @ ''    assert has_duplicate(nums=[1, 2, 3, 1]) == True\<newline>''
         @ ''\<newline>''
   \<and> render ''a/b/c'' demo_rich = demo_rich_text"
proof (intro conjI)
  show "render src_path specs =
     ''from src.'' @ replace ''/'' ''.'' src_path @ '' import '' @ function_name specs
       @ ''\<newline>''
     @ ''\<newline>''
     @ concat (map (\<lambda>(i, c).
                 ''def test_case_'' @ str_nat i @ ''():\<newline>''
                 @ ''    assert '' @ function_name specs
                 @ ''('' @ join '', '' (map (\<lambda>(k, v). k @ ''='' @ repr v) (case_input c))
                 @ '') == '' @ repr (case_output c) @ ''\<newline>''
                 @ ''\<newline>'')
         (enumerate 0 (test_cases specs)))"
    by (simp add: render_def render_cases_concat append_case_def input_args_def)
  show "decimal_value (str_nat i) = i"
    by (rule str_nat_value)
  show "list_all is_digit (str_nat i)"
    by (rule str_nat_digits)
  show "(hd (str_nat i) = CHR ''0'') = (i = 0)"
    by (rule str_nat_leading)
  show "repr PyNone = ''None''"
    by simp
  show "repr (PyBool b) = (if b then ''True'' else ''False'')"
    by simp
  show "int_literal_value (repr (PyInt n)) = n"
    by (simp add: str_int_value)
  show "str_literal_value (repr (PyStr s)) = Some s"
    by (simp add: repr_str_value)
  show "repr (PyList vs) = ''['' @ join '', '' (map repr vs) @ '']''"
    by simp
  show "render ''arrays/has_duplicate''
         \<lparr>function_name = ''has_duplicate'',
          test_cases =
            [\<lparr>case_input = [(''nums'', PyList [PyInt 1, PyInt 2, PyInt 3, PyInt 1])],
              case_output = PyBool True\<rparr>]\<rparr>
       = ''from src.arrays.has_duplicate import has_duplicate\<newline>''
         @ ''\<newline>''
         @ ''def test_case_0():\<newline>''
         @ ''    assert has_duplicate(nums=[1, 2, 3, 1]) == True\<newline>''
         @ ''\<newline>''"
    by code_simp
  show "render ''a/b/c'' demo_rich = demo_rich_text"
    by code_simp
qed

lemma generate_test_file_written:
  assumes "validate_function ex src_path (function_name specs) verbose st = (Inr True, st1)"
    and "force \<or> \<not> os_path_exists (test_filepath_of src_path) (files st)"
  shows "map_of (files (snd (generate_test_file ex src_path specs force verbose st)))
           (test_filepath_of src_path) = Some (render src_path specs)"
  using assms
  by (auto simp add: generate_test_file_def Let_def print_def write_file_def update_conv')

text \<open>
  C7. Rendering is deterministic and depends on the identifier and the specification only:
  whenever \<open>generate_test_file\<close> writes the test file of an identifier (validation
  succeeded, and the target is absent or \<open>force\<close> is set), in two runs that may differ in
  the file system, the flags, what was printed before and the behaviour of the loader, the
  two texts written are the same text, \<open>render src_path specs\<close>.
\<close>

theorem render_deterministic:
  assumes "validate_function ex src_path (function_name specs) verbose st = (Inr True, st1)"
    and "force \<or> \<not> os_path_exists (test_filepath_of src_path) (files st)"
    and "validate_function ex' src_path (function_name specs) verbose' st' = (Inr True, st1')"
    and "force' \<or> \<not> os_path_exists (test_filepath_of src_path) (files st')"
  shows "map_of (files (snd (generate_test_file ex src_path specs force verbose st)))
           (test_filepath_of src_path)
         = map_of (files (snd (generate_test_file ex' src_path specs force' verbose' st')))
             (test_filepath_of src_path)
       \<and> map_of (files (snd (generate_test_file ex src_path specs force verbose st)))
           (test_filepath_of src_path) = Some (render src_path specs)"
  using generate_test_file_written [OF assms(1,2)] generate_test_file_written [OF assms(3,4)]
  by simp

theorem render_deterministic_witness:
  "validate_function demo_exec ''arrays/has_duplicate'' (function_name demo_spec) False
       demo_fresh
     = (Inr True, demo_fresh\<lparr>loaded := [''src/arrays/has_duplicate.py'']\<rparr>)
   \<and> \<not> os_path_exists (test_filepath_of ''arrays/has_duplicate'') (files demo_fresh)
   \<and> validate_function demo_exec ''arrays/has_duplicate'' (function_name demo_spec) True
       demo_stale
     = (Inr True, demo_stale\<lparr>loaded := [''src/arrays/has_duplicate.py'']\<rparr>)
   \<and> map_of (files (snd (generate_test_file demo_exec ''arrays/has_duplicate'' demo_spec
                           False False demo_fresh)))
         (test_filepath_of ''arrays/has_duplicate'')
       = map_of (files (snd (generate_test_file demo_exec ''arrays/has_duplicate'' demo_spec
                               True True demo_stale)))
           (test_filepath_of ''arrays/has_duplicate'')
   \<and> map_of (files (snd (generate_test_file demo_exec ''arrays/has_duplicate'' demo_spec
                           False False demo_fresh)))
         (test_filepath_of ''arrays/has_duplicate'')
       = Some (render ''arrays/has_duplicate'' demo_spec)"
proof -
  have a: "validate_function demo_exec ''arrays/has_duplicate'' (function_name demo_spec) False
       demo_fresh
     = (Inr True, demo_fresh\<lparr>loaded := [''src/arrays/has_duplicate.py'']\<rparr>)"
    by code_simp
  have b: "\<not> os_path_exists (test_filepath_of ''arrays/has_duplicate'') (files demo_fresh)"
    by code_simp
  have c: "validate_function demo_exec ''arrays/has_duplicate'' (function_name demo_spec) True
       demo_stale
     = (Inr True, demo_stale\<lparr>loaded := [''src/arrays/has_duplicate.py'']\<rparr>)"
    by code_simp
  show ?thesis
    using a b c render_deterministic [OF a disjI2 [OF b] c disjI1 [OF TrueI]]
    by blast
qed

section \<open>Validation\<close>

lemma validate_function_files:
  "files (snd (validate_function ex src_path fname verbose st)) = files st"
  by (simp add: validate_function_def print_def Let_def
      split: option.split exec_result.split)

lemma validate_function_loaded:
  "loaded (snd (validate_function ex src_path fname verbose st))
   = loaded st @ (if map_of (files st) (os_path_join ''src'' (src_path @ ''.py'')) = None
                  then [] else [os_path_join ''src'' (src_path @ ''.py'')])"
  by (simp add: validate_function_def print_def Let_def
      split: option.split exec_result.split)

text \<open>
  C5, as stated, fails: \<open>except Exception\<close> does not catch an exception that derives from
  \<open>BaseException\<close> only. A solution whose code leaves through \<open>SystemExit\<close> while it is
  loaded makes \<open>validate_function\<close> raise it to its caller.
\<close>

theorem validate_function_propagates_SystemExit:
  "validate_function demo_exec ''arrays/has_duplicate'' ''has_duplicate'' False
     \<lparr>files = [(''src/arrays/has_duplicate.py'', ''raise SystemExit'')],
      stdout = [], loaded = []\<rparr>
   = (Inl SystemExit,
      \<lparr>files = [(''src/arrays/has_duplicate.py'', ''raise SystemExit'')],
       stdout = [], loaded = [''src/arrays/has_duplicate.py'']\<rparr>)"
  by code_simp

text \<open>
  C5, amended. If the resolved source file is missing, \<open>validate_function\<close> returns False
  and loads nothing (the state is unchanged). If the file is there and running the loaded
  unit raises an instance of \<open>Exception\<close>, the exception is caught and the result is
  False; if it raises an exception that is not an instance of \<open>Exception\<close> (\<open>SystemExit\<close>,
  \<open>KeyboardInterrupt\<close>, \<open>GeneratorExit\<close>, a class derived from \<open>BaseException\<close> itself),
  that exception propagates to the caller; if it raises nothing, the result is whether the
  entry point is an attribute of the module. Nothing else propagates: an exception that
  leaves \<open>validate_function\<close> is one that the loaded unit raised and that is no instance of
  \<open>Exception\<close>.
\<close>

theorem validate_function_outcomes:
  "(map_of (files st) (os_path_join ''src'' (src_path @ ''.py'')) = None \<longrightarrow>
      validate_function ex src_path fname verbose st = (Inr False, st))
   \<and> (\<forall>source e.
        map_of (files st) (os_path_join ''src'' (src_path @ ''.py'')) = Some source \<longrightarrow>
        ex (replace ''/'' ''.'' src_path) source = Raises e \<longrightarrow>
        is_Exception e \<longrightarrow>
        fst (validate_function ex src_path fname verbose st) = Inr False)
   \<and> (\<forall>source e.
        map_of (files st) (os_path_join ''src'' (src_path @ ''.py'')) = Some source \<longrightarrow>
        ex (replace ''/'' ''.'' src_path) source = Raises e \<longrightarrow>
        \<not> is_Exception e \<longrightarrow>
        fst (validate_function ex src_path fname verbose st) = Inl e)
   \<and> (\<forall>source attrs.
        map_of (files st) (os_path_join ''src'' (src_path @ ''.py'')) = Some source \<longrightarrow>
        ex (replace ''/'' ''.'' src_path) source = Module attrs \<longrightarrow>
        fst (validate_function ex src_path fname verbose st) = Inr (fname \<in> set attrs))
   \<and> (\<forall>e. fst (validate_function ex src_path fname verbose st) = Inl e \<longrightarrow>
        \<not> is_Exception e
        \<and> (\<exists>source.
             map_of (files st) (os_path_join ''src'' (src_path @ ''.py'')) = Some source
             \<and> ex (replace ''/'' ''.'' src_path) source = Raises e))"
  by (auto simp add: validate_function_def Let_def
      split: option.splits exec_result.splits if_splits)

theorem validate_function_outcomes_witness:
  "validate_function demo_exec ''arrays/missing'' ''has_duplicate'' True demo_fresh
     = (Inr False, demo_fresh)
   \<and> fst (validate_function demo_exec ''arrays/has_duplicate'' ''has_duplicate'' True
            demo_broken) = Inr False
   \<and> fst (validate_function demo_exec ''arrays/has_duplicate'' ''has_duplicate'' False
            demo_exiting) = Inl SystemExit
   \<and> fst (validate_function demo_exec ''arrays/has_duplicate'' ''has_duplicate'' False
            demo_fresh) = Inr True"
proof -
  have a: "map_of (files demo_fresh) (os_path_join ''src'' (''arrays/missing'' @ ''.py''))
           = None"
    by code_simp
  have b: "map_of (files demo_broken)
             (os_path_join ''src'' (''arrays/has_duplicate'' @ ''.py'')) = Some ''def (''"
    by code_simp
  have c: "demo_exec (replace ''/'' ''.'' ''arrays/has_duplicate'') ''def (''
           = Raises (PyExc ''SyntaxError'' True ''invalid syntax'')"
    by code_simp
  have d: "map_of (files demo_exiting)
             (os_path_join ''src'' (''arrays/has_duplicate'' @ ''.py''))
           = Some ''raise SystemExit''"
    by code_simp
  have e: "demo_exec (replace ''/'' ''.'' ''arrays/has_duplicate'') ''raise SystemExit''
           = Raises SystemExit"
    by code_simp
  have f: "\<not> is_Exception SystemExit"
    by code_simp
  have g: "map_of (files demo_fresh)
             (os_path_join ''src'' (''arrays/has_duplicate'' @ ''.py''))
           = Some ''def has_duplicate(nums): pass''"
    by code_simp
  have h: "demo_exec (replace ''/'' ''.'' ''arrays/has_duplicate'')
             ''def has_duplicate(nums): pass''
           = Module [''__name__'', ''__file__'', ''has_duplicate'']"
    by code_simp
  have i: "is_Exception (PyExc ''SyntaxError'' True ''invalid syntax'')"
    by simp
  have j: "''has_duplicate'' \<in> set [''__name__'', ''__file__'', ''has_duplicate'']"
    by simp
  have one: "validate_function demo_exec ''arrays/missing'' ''has_duplicate'' True demo_fresh
     = (Inr False, demo_fresh)"
    using a validate_function_outcomes [of demo_fresh "''arrays/missing''" demo_exec
        "''has_duplicate''" True]
    by blast
  have two: "fst (validate_function demo_exec ''arrays/has_duplicate'' ''has_duplicate'' True
            demo_broken) = Inr False"
    using b c i validate_function_outcomes [of demo_broken "''arrays/has_duplicate''"
        demo_exec "''has_duplicate''" True]
    by blast
  have three: "fst (validate_function demo_exec ''arrays/has_duplicate'' ''has_duplicate''
            False demo_exiting) = Inl SystemExit"
    using d e f validate_function_outcomes [of demo_exiting "''arrays/has_duplicate''"
        demo_exec "''has_duplicate''" False]
    by blast
  have four: "fst (validate_function demo_exec ''arrays/has_duplicate'' ''has_duplicate''
            False demo_fresh) = Inr True"
    using g h j validate_function_outcomes [of demo_fresh "''arrays/has_duplicate''"
        demo_exec "''has_duplicate''" False]
    by (metis (full_types))
  show ?thesis
    using one two three four by blast
qed

section \<open>The write policy\<close>

text \<open>
  C3 holds of the specification and fails on the code: the outcome is chosen after the
  file is written, when the target always exists. A forced run on a target that did not
  exist before prints \<open>Regenerated\<close>.
\<close>

theorem forced_new_target_reported_regenerated:
  "generate_test_file demo_exec ''arrays/has_duplicate'' demo_spec True False
     \<lparr>files = [(''src/arrays/has_duplicate.py'', ''def has_duplicate(nums): pass'')],
      stdout = [], loaded = []\<rparr>
   = (None,
      \<lparr>files = [(''src/arrays/has_duplicate.py'', ''def has_duplicate(nums): pass''),
                (''tests/arrays/test_has_duplicate.py'', demo_text)],
       stdout = [''Regenerated tests/arrays/test_has_duplicate.py''],
       loaded = [''src/arrays/has_duplicate.py'']\<rparr>)"
  by code_simp

text \<open>
  C4, as stated, fails: the test whether the target exists comes first. With the target
  present and \<open>force\<close> unset, a run loads no solution and reports nothing, although the
  solution here does not define the entry point.
\<close>

theorem existing_target_skips_validation:
  "main demo_exec demo_specs False False
     \<lparr>files = [(''src/arrays/has_duplicate.py'', ''x = 1''),
               (''tests/arrays/test_has_duplicate.py'', ''old'')],
      stdout = [], loaded = []\<rparr>
   = (None,
      \<lparr>files = [(''src/arrays/has_duplicate.py'', ''x = 1''),
                (''tests/arrays/test_has_duplicate.py'', ''old'')],
       stdout = [], loaded = []\<rparr>)"
  by code_simp

lemma main_loop_entry:
  "main ex specs force verbose st
   = generate_all ex specs force verbose (get_src_files ''src'' (files st))
       (loop_entry verbose st)"
  by (simp only: main_def loop_entry_def Let_def)

lemma generate_all_append:
  "generate_all ex specs force verbose (pre @ rest) st
   = (case generate_all ex specs force verbose pre st of
        (None, st') \<Rightarrow> generate_all ex specs force verbose rest st'
      | (Some e, st') \<Rightarrow> (Some e, st'))"
  by (induction pre arbitrary: st) (auto split: option.splits prod.splits)

lemma generate_test_file_skip:
  assumes "os_path_exists (test_filepath_of s) (files st) \<and> \<not> force"
  shows "fst (generate_test_file ex s sp force verbose st) = None"
    and "files (snd (generate_test_file ex s sp force verbose st)) = files st"
    and "loaded (snd (generate_test_file ex s sp force verbose st)) = loaded st"
  using assms by (simp_all add: generate_test_file_def Let_def print_def)

lemma generate_test_file_after_validation:
  assumes "force \<or> \<not> os_path_exists (test_filepath_of s) (files st)"
  shows "fst (generate_test_file ex s sp force verbose st)
         = (case fst (validate_function ex s (function_name sp) verbose st) of
              Inl e \<Rightarrow> Some e
            | Inr b \<Rightarrow> None)"
    and "loaded (snd (generate_test_file ex s sp force verbose st))
         = loaded (snd (validate_function ex s (function_name sp) verbose st))"
    and "files (snd (generate_test_file ex s sp force verbose st))
         = (if fst (validate_function ex s (function_name sp) verbose st) = Inr True
            then write_file (test_filepath_of s) (render s sp)
                   (files (snd (validate_function ex s (function_name sp) verbose st)))
            else files (snd (validate_function ex s (function_name sp) verbose st)))"
proof -
  obtain r st1 where v: "validate_function ex s (function_name sp) verbose st = (r, st1)"
    by (cases "validate_function ex s (function_name sp) verbose st")
  show "fst (generate_test_file ex s sp force verbose st)
         = (case fst (validate_function ex s (function_name sp) verbose st) of
              Inl e \<Rightarrow> Some e
            | Inr b \<Rightarrow> None)"
    using assms v
    by (auto simp add: generate_test_file_def Let_def print_def split: sum.splits bool.splits)
  show "loaded (snd (generate_test_file ex s sp force verbose st))
         = loaded (snd (validate_function ex s (function_name sp) verbose st))"
    using assms v
    by (auto simp add: generate_test_file_def Let_def print_def split: sum.splits bool.splits)
  show "files (snd (generate_test_file ex s sp force verbose st))
         = (if fst (validate_function ex s (function_name sp) verbose st) = Inr True
            then write_file (test_filepath_of s) (render s sp)
                   (files (snd (validate_function ex s (function_name sp) verbose st)))
            else files (snd (validate_function ex s (function_name sp) verbose st)))"
    using assms v
    by (auto simp add: generate_test_file_def Let_def print_def split: sum.splits bool.splits)
qed

text \<open>
  C4, amended. Take a run of \<open>main\<close> and a solution identifier \<open>s\<close> of its enumeration that
  has an entry in the spec table and that the loop reaches (the solutions before it have
  raised no exception), in the state \<open>st_s\<close>. The run goes on with \<open>generate_test_file\<close> for
  \<open>s\<close> in that state, and ends there if it raises. If the target of \<open>s\<close> exists and
  \<open>force\<close> is unset, \<open>s\<close> is skipped without validation: nothing is loaded and no file
  changes. Otherwise validation runs first: what it loads (the source file, if it exists)
  is loaded, an exception that leaves it ends the run, and after it the files change only
  if it returned True, and then by the write of the rendered text to the target.
\<close>

theorem main_validation_order:
  assumes "get_src_files ''src'' (files st) = pre @ s # post"
    and "specs s = Some sp"
    and "generate_all ex specs force verbose pre (loop_entry verbose st) = (None, st_s)"
  shows
    "main ex specs force verbose st
       = (case generate_test_file ex s sp force verbose st_s of
            (None, st') \<Rightarrow> generate_all ex specs force verbose post st'
          | (Some e, st') \<Rightarrow> (Some e, st'))
     \<and> (os_path_exists (test_filepath_of s) (files st_s) \<and> \<not> force \<longrightarrow>
          fst (generate_test_file ex s sp force verbose st_s) = None
          \<and> files (snd (generate_test_file ex s sp force verbose st_s)) = files st_s
          \<and> loaded (snd (generate_test_file ex s sp force verbose st_s)) = loaded st_s)
     \<and> (force \<or> \<not> os_path_exists (test_filepath_of s) (files st_s) \<longrightarrow>
          fst (generate_test_file ex s sp force verbose st_s)
            = (case fst (validate_function ex s (function_name sp) verbose st_s) of
                 Inl e \<Rightarrow> Some e
               | Inr b \<Rightarrow> None)
          \<and> loaded (snd (generate_test_file ex s sp force verbose st_s))
            = loaded st_s
              @ (if map_of (files st_s) (os_path_join ''src'' (s @ ''.py'')) = None
                 then [] else [os_path_join ''src'' (s @ ''.py'')])
          \<and> files (snd (generate_test_file ex s sp force verbose st_s))
            = (if fst (validate_function ex s (function_name sp) verbose st_s) = Inr True
               then write_file (test_filepath_of s) (render s sp)
                      (files (snd (validate_function ex s (function_name sp) verbose st_s)))
               else files (snd (validate_function ex s (function_name sp) verbose st_s))))"
proof (intro conjI impI)
  have "main ex specs force verbose st
        = generate_all ex specs force verbose (pre @ s # post) (loop_entry verbose st)"
    using assms(1) by (simp only: main_loop_entry)
  also have "\<dots> = generate_all ex specs force verbose (s # post) st_s"
    using assms(3) by (simp only: generate_all_append) simp
  finally show "main ex specs force verbose st
       = (case generate_test_file ex s sp force verbose st_s of
            (None, st') \<Rightarrow> generate_all ex specs force verbose post st'
          | (Some e, st') \<Rightarrow> (Some e, st'))"
    using assms(2) by (simp split: prod.splits option.splits)
next
  assume skip: "os_path_exists (test_filepath_of s) (files st_s) \<and> \<not> force"
  show "fst (generate_test_file ex s sp force verbose st_s) = None"
    "files (snd (generate_test_file ex s sp force verbose st_s)) = files st_s"
    "loaded (snd (generate_test_file ex s sp force verbose st_s)) = loaded st_s"
    using generate_test_file_skip [OF skip] by simp_all
next
  assume go: "force \<or> \<not> os_path_exists (test_filepath_of s) (files st_s)"
  note after = generate_test_file_after_validation [OF go, of ex sp verbose]
  show "fst (generate_test_file ex s sp force verbose st_s)
            = (case fst (validate_function ex s (function_name sp) verbose st_s) of
                 Inl e \<Rightarrow> Some e
               | Inr b \<Rightarrow> None)"
    by (rule after(1))
  show "loaded (snd (generate_test_file ex s sp force verbose st_s))
            = loaded st_s
              @ (if map_of (files st_s) (os_path_join ''src'' (s @ ''.py'')) = None
                 then [] else [os_path_join ''src'' (s @ ''.py'')])"
    unfolding after(2) by (rule validate_function_loaded)
  show "files (snd (generate_test_file ex s sp force verbose st_s))
            = (if fst (validate_function ex s (function_name sp) verbose st_s) = Inr True
               then write_file (test_filepath_of s) (render s sp)
                      (files (snd (validate_function ex s (function_name sp) verbose st_s)))
               else files (snd (validate_function ex s (function_name sp) verbose st_s)))"
    by (rule after(3))
qed

theorem main_validation_order_witness:
  "get_src_files ''src'' (files demo_two) = [''a''] @ ''arrays/has_duplicate'' # []
   \<and> main demo_exec demo_specs False False demo_two
       = (case generate_test_file demo_exec ''arrays/has_duplicate'' demo_spec False False
                 demo_two of
            (None, st') \<Rightarrow> generate_all demo_exec demo_specs False False [] st'
          | (Some e, st') \<Rightarrow> (Some e, st'))
   \<and> loaded (snd (generate_test_file demo_exec ''arrays/has_duplicate'' demo_spec False False
                    demo_two))
       = loaded demo_two @ [os_path_join ''src'' (''arrays/has_duplicate'' @ ''.py'')]
   \<and> get_src_files ''src'' (files demo_stale) = [] @ ''arrays/has_duplicate'' # []
   \<and> os_path_exists (test_filepath_of ''arrays/has_duplicate'') (files demo_stale)
   \<and> files (snd (generate_test_file demo_exec ''arrays/has_duplicate'' demo_spec False False
                   demo_stale)) = files demo_stale
   \<and> loaded (snd (generate_test_file demo_exec ''arrays/has_duplicate'' demo_spec False False
                    demo_stale)) = loaded demo_stale"
proof -
  have a: "get_src_files ''src'' (files demo_two) = [''a''] @ ''arrays/has_duplicate'' # []"
    by code_simp
  have b: "demo_specs ''arrays/has_duplicate'' = Some demo_spec"
    by (simp add: demo_specs_def)
  have c: "generate_all demo_exec demo_specs False False [''a''] (loop_entry False demo_two)
           = (None, demo_two)"
    by code_simp
  have d: "\<not> os_path_exists (test_filepath_of ''arrays/has_duplicate'') (files demo_two)"
    by code_simp
  have e: "map_of (files demo_two) (os_path_join ''src'' (''arrays/has_duplicate'' @ ''.py''))
           \<noteq> None"
    by code_simp
  have a': "get_src_files ''src'' (files demo_stale) = [] @ ''arrays/has_duplicate'' # []"
    by code_simp
  have c': "generate_all demo_exec demo_specs False False [] (loop_entry False demo_stale)
            = (None, demo_stale)"
    by code_simp
  have d': "os_path_exists (test_filepath_of ''arrays/has_duplicate'') (files demo_stale)"
    by code_simp
  show ?thesis
    using a d e a' d' main_validation_order [OF a b c] main_validation_order [OF a' b c']
    by simp
qed

section \<open>The enumerations and the sweep\<close>

text \<open>
  C2 holds of the specification and fails on the code: \<open>replace\<close> takes out every
  \<open>test_\<close>, not the prefix of the file name only. The solution \<open>src/arrays/test_foo.py\<close>
  has the identifier \<open>arrays/test_foo\<close>; the test file generated for it is
  \<open>tests/arrays/test_test_foo.py\<close>, which the tests enumeration gives the identifier
  \<open>arrays/foo\<close>.
\<close>

theorem identifier_mismatch:
  "get_src_files ''src'' [(''src/arrays/test_foo.py'', ''x = 1'')] = [''arrays/test_foo'']
   \<and> test_filepath_of ''arrays/test_foo'' = ''tests/arrays/test_test_foo.py''
   \<and> get_test_files ''tests'' [(''tests/arrays/test_test_foo.py'', ''x = 1'')]
       = [''arrays/foo'']"
  by code_simp

text \<open>
  C1 holds of the specification and fails on the code: the sweep looks for
  \<open>tests/<identifier>.py\<close>, without the prefix \<open>test_\<close> that the generator puts before
  the file name. With the source of \<open>has_duplicate\<close> deleted, the run finds the orphan
  identifier, finds no file \<open>tests/arrays/has_duplicate.py\<close>, and leaves
  \<open>tests/arrays/test_has_duplicate.py\<close> in place, with nothing printed.
\<close>

theorem orphan_not_removed:
  "get_src_files ''src'' [(''tests/arrays/test_has_duplicate.py'', demo_text)] = []
   \<and> get_test_files ''tests'' [(''tests/arrays/test_has_duplicate.py'', demo_text)]
       = [''arrays/has_duplicate'']
   \<and> test_filepath_of ''arrays/has_duplicate'' = ''tests/arrays/test_has_duplicate.py''
   \<and> main demo_exec demo_specs False False
         \<lparr>files = [(''tests/arrays/test_has_duplicate.py'', demo_text)],
          stdout = [], loaded = []\<rparr>
       = (None,
          \<lparr>files = [(''tests/arrays/test_has_duplicate.py'', demo_text)],
           stdout = [], loaded = []\<rparr>)"
  by code_simp

text \<open>
  C8 holds of the specification and fails on the code. The solution \<open>a\<close> has no entry in
  the spec table and has the test file \<open>tests/test_a.py\<close>. Another test file,
  \<open>tests/test_tetest_st_a.py\<close>, gets the identifier \<open>test_a\<close> (what is left of
  \<open>test_tetest_st_a\<close> once both occurrences of \<open>test_\<close> are taken out), which is no
  solution; the sweep removes \<open>tests/test_a.py\<close> for it.
\<close>

theorem unspecified_test_removed:
  "get_test_files ''tests''
     [(''src/a.py'', ''x = 1''), (''tests/test_a.py'', ''kept''),
      (''tests/test_tetest_st_a.py'', '''')] = [''a'', ''test_a'']
   \<and> test_filepath_of ''a'' = ''tests/test_a.py''
   \<and> main demo_exec Map.empty False False
         \<lparr>files = [(''src/a.py'', ''x = 1''), (''tests/test_a.py'', ''kept''),
                   (''tests/test_tetest_st_a.py'', '''')],
          stdout = [], loaded = []\<rparr>
       = (None,
          \<lparr>files = [(''src/a.py'', ''x = 1''), (''tests/test_tetest_st_a.py'', '''')],
           stdout = [''Removed orphaned test file: tests/test_a.py''], loaded = []\<rparr>)"
  by code_simp

section \<open>Running the pipeline twice\<close>

subsection \<open>Paths under \<open>tests\<close> and under \<open>src\<close>\<close>

lemma os_path_join_tests:
  "\<not> startswith b ''/'' \<Longrightarrow> os_path_join ''tests'' b = ''tests/'' @ b"
  by (simp add: os_path_join_def os_sep_def startswith_def endswith_def suffix_def)

lemma os_path_join_src:
  "\<not> startswith b ''/'' \<Longrightarrow> os_path_join ''src'' b = ''src/'' @ b"
  by (simp add: os_path_join_def os_sep_def startswith_def endswith_def suffix_def)

lemma os_path_join_tests_cases:
  "startswith (os_path_join ''tests'' b) ''tests/'' \<or> startswith (os_path_join ''tests'' b) ''/''"
  by (simp add: os_path_join_def os_sep_def startswith_def endswith_def suffix_def)

lemma rstrip_prefix: "prefix (rev (dropWhile P (rev xs))) xs"
proof -
  have "rev xs = takeWhile P (rev xs) @ dropWhile P (rev xs)" by simp
  then have "xs = rev (dropWhile P (rev xs)) @ rev (takeWhile P (rev xs))"
    by (metis rev_append rev_rev_ident)
  then show ?thesis by (metis prefixI)
qed

lemma os_path_dirname_prefix: "prefix (os_path_dirname p) p"
  unfolding os_path_dirname_def path_head_def Let_def
  using rstrip_prefix [of "\<lambda>c. c \<noteq> CHR ''/''" p]
    rstrip_prefix [of "\<lambda>c. c = CHR ''/''" "rev (dropWhile (\<lambda>c. c \<noteq> CHR ''/'') (rev p))"]
  by (auto intro: prefix_order.trans)

lemma dirname_relative:
  assumes "\<not> startswith s ''/''"
  shows "\<not> startswith (os_path_dirname s) ''/''"
  using assms os_path_dirname_prefix [of s]
  unfolding startswith_def by (meson prefix_order.trans)

lemma test_filepath_of_tests:
  assumes "\<not> startswith s ''/''"
  shows "startswith (test_filepath_of s) ''tests/''"
proof -
  have d: "os_path_join ''tests'' (os_path_dirname s) = ''tests/'' @ os_path_dirname s"
    using os_path_join_tests [OF dirname_relative [OF assms]] .
  show ?thesis
    unfolding test_filepath_of_def Let_def d
    by (simp add: os_path_join_def os_sep_def startswith_def endswith_def)
qed

lemma tests_not_src: "startswith p ''tests/'' \<or> startswith p ''/'' \<Longrightarrow> \<not> startswith p ''src/''"
  by (auto simp add: startswith_def prefix_def)

lemma full_src_path_src:
  assumes "\<not> startswith s ''/''"
  shows "startswith (os_path_join ''src'' (s @ ''.py'')) ''src/''"
proof -
  have "\<not> startswith (s @ ''.py'') ''/''"
    using assms by (cases s) (simp_all add: startswith_def)
  then show ?thesis
    by (simp add: os_path_join_src startswith_def)
qed

lemma os_walk_update:
  assumes "\<not> startswith p (root @ os_sep)"
  shows "os_walk root (AList.update p c fs) = os_walk root fs"
  using assms by (simp add: os_walk_def update_keys)

lemma os_walk_delete:
  assumes "\<not> startswith p (root @ os_sep)"
  shows "os_walk root (AList.delete p fs) = os_walk root fs"
proof -
  have "filter (\<lambda>q. startswith q (root @ os_sep)) (removeAll p (map fst fs))
        = filter (\<lambda>q. startswith q (root @ os_sep)) (map fst fs)"
    using assms by (induction fs) auto
  then show ?thesis
    by (simp add: os_walk_def delete_keys)
qed

lemma src_frame_refl: "src_frame fs fs"
  by (simp add: src_frame_def)

lemma src_frame_trans: "src_frame a b \<Longrightarrow> src_frame b c \<Longrightarrow> src_frame a c"
  by (simp add: src_frame_def)

lemma src_frame_write:
  assumes "\<not> startswith p ''src/''"
  shows "src_frame fs (write_file p c fs)"
proof -
  have "os_walk ''src'' (AList.update p c fs) = os_walk ''src'' fs"
    using assms by (intro os_walk_update) (simp add: os_sep_def)
  moreover have "\<forall>q. startswith q ''src/'' \<longrightarrow> map_of fs q = map_of (AList.update p c fs) q"
    using assms by (auto simp add: update_conv')
  ultimately show ?thesis
    by (simp add: src_frame_def write_file_def)
qed

lemma src_frame_remove:
  assumes "\<not> startswith p ''src/''"
  shows "src_frame fs (os_remove p fs)"
proof -
  have "os_walk ''src'' (AList.delete p fs) = os_walk ''src'' fs"
    using assms by (intro os_walk_delete) (simp add: os_sep_def)
  moreover have "\<forall>q. startswith q ''src/'' \<longrightarrow> map_of fs q = map_of (AList.delete p fs) q"
    using assms by (auto simp add: delete_conv')
  ultimately show ?thesis
    by (simp add: src_frame_def os_remove_def)
qed

lemma src_frame_get_src_files:
  "src_frame fs fs' \<Longrightarrow> get_src_files ''src'' fs = get_src_files ''src'' fs'"
  by (simp add: src_frame_def get_src_files_def)

lemma validate_function_fst_cong:
  assumes "map_of (files st) (os_path_join ''src'' (s @ ''.py''))
           = map_of (files st') (os_path_join ''src'' (s @ ''.py''))"
  shows "fst (validate_function ex s fname v st) = fst (validate_function ex s fname v' st')"
  using assms
  by (simp add: validate_function_def Let_def
      split: option.split exec_result.split)

lemma validate_function_frame:
  assumes "src_frame (files st) (files st')" and "\<not> startswith s ''/''"
  shows "fst (validate_function ex s fname v st) = fst (validate_function ex s fname v' st')"
  using assms full_src_path_src [OF assms(2)]
  by (intro validate_function_fst_cong) (simp add: src_frame_def)

lemma os_path_exists_write:
  "os_path_exists p (write_file q c fs) = (p = q \<or> os_path_exists p fs)"
  by (simp add: os_path_exists_def write_file_def update_conv')

lemma generate_test_file_files:
  "files (snd (generate_test_file ex s sp force v st))
   = (if (force \<or> \<not> os_path_exists (test_filepath_of s) (files st))
         \<and> fst (validate_function ex s (function_name sp) v st) = Inr True
      then write_file (test_filepath_of s) (render s sp) (files st)
      else files st)"
proof -
  obtain r st1 where v: "validate_function ex s (function_name sp) v st = (r, st1)"
    by (cases "validate_function ex s (function_name sp) v st")
  have f: "files st1 = files st"
    using validate_function_files [of ex s "function_name sp" v st] v by simp
  show ?thesis
    using v f
    by (auto simp add: generate_test_file_def Let_def print_def split: sum.splits bool.splits)
qed

lemma generate_test_file_fst:
  "fst (generate_test_file ex s sp force v st)
   = (if os_path_exists (test_filepath_of s) (files st) \<and> \<not> force then None
      else case fst (validate_function ex s (function_name sp) v st) of
             Inl e \<Rightarrow> Some e
           | Inr b \<Rightarrow> None)"
proof -
  obtain r st1 where v: "validate_function ex s (function_name sp) v st = (r, st1)"
    by (cases "validate_function ex s (function_name sp) v st")
  show ?thesis
    using v
    by (auto simp add: generate_test_file_def Let_def print_def split: sum.splits bool.splits)
qed

lemma settled_files:
  "files st = files st' \<Longrightarrow> settled ex specs s st = settled ex specs s st'"
  using validate_function_fst_cong [of st s st' ex _ False False]
  by (simp add: settled_def split: option.split)

lemma settled_frame:
  assumes "src_frame (files st) (files st')" and "\<not> startswith s ''/''"
    and "\<forall>p. os_path_exists p (files st) \<longrightarrow> os_path_exists p (files st')"
    and "settled ex specs s st"
  shows "settled ex specs s st'"
  using assms validate_function_frame [OF assms(1,2), of ex _ False False]
  by (auto simp add: settled_def split: option.splits)

lemma generate_test_file_step:
  assumes "generate_test_file ex s sp False v st = (None, st1)"
    and "\<not> startswith s ''/''"
  shows "src_frame (files st) (files st1)"
    and "\<forall>p. os_path_exists p (files st) \<longrightarrow> os_path_exists p (files st1)"
    and "os_path_exists (test_filepath_of s) (files st1)
         \<or> fst (validate_function ex s (function_name sp) False st1) = Inr False"
proof -
  have fs1: "files st1
      = (if \<not> os_path_exists (test_filepath_of s) (files st)
            \<and> fst (validate_function ex s (function_name sp) v st) = Inr True
         then write_file (test_filepath_of s) (render s sp) (files st)
         else files st)"
    using generate_test_file_files [of ex s sp False v st] assms(1) by simp
  have nosrc: "\<not> startswith (test_filepath_of s) ''src/''"
    using test_filepath_of_tests [OF assms(2)] tests_not_src by blast
  show frame: "src_frame (files st) (files st1)"
    unfolding fs1 using src_frame_write [OF nosrc] src_frame_refl by simp
  show "\<forall>p. os_path_exists p (files st) \<longrightarrow> os_path_exists p (files st1)"
    unfolding fs1 by (simp add: os_path_exists_write)
  have r: "fst (generate_test_file ex s sp False v st) = None"
    using assms(1) by simp
  have same: "fst (validate_function ex s (function_name sp) False st1)
              = fst (validate_function ex s (function_name sp) v st)"
    using validate_function_frame [OF frame assms(2), of ex "function_name sp" v False] by simp
  show "os_path_exists (test_filepath_of s) (files st1)
         \<or> fst (validate_function ex s (function_name sp) False st1) = Inr False"
  proof (cases "os_path_exists (test_filepath_of s) (files st)")
    case True
    then show ?thesis unfolding fs1 by simp
  next
    case False
    show ?thesis
    proof (cases "fst (validate_function ex s (function_name sp) v st)")
      case (Inl e)
      then show ?thesis
        using r False by (simp add: generate_test_file_fst)
    next
      case (Inr b)
      then show ?thesis
        unfolding same fs1 using False by (cases b) (simp_all add: os_path_exists_write)
    qed
  qed
qed

lemma generate_all_first_run:
  assumes "generate_all ex specs False v ss st = (None, st')"
    and "\<forall>s\<in>set ss. \<not> startswith s ''/''"
  shows "src_frame (files st) (files st')
         \<and> (\<forall>p. os_path_exists p (files st) \<longrightarrow> os_path_exists p (files st'))
         \<and> (\<forall>s\<in>set ss. settled ex specs s st')"
  using assms
proof (induction ss arbitrary: st)
  case Nil
  then show ?case by (simp add: src_frame_refl)
next
  case (Cons s ss)
  have rel: "\<not> startswith s ''/''" and rels: "\<forall>s\<in>set ss. \<not> startswith s ''/''"
    using Cons.prems(2) by simp_all
  show ?case
  proof (cases "specs s")
    case None
    define st1 where "st1 = (if v then print (''No test specs found for src/'' @ s @ ''.py'') st
                             else st)"
    have f1: "files st1 = files st"
      by (simp add: st1_def print_def)
    have run: "generate_all ex specs False v ss st1 = (None, st')"
      using Cons.prems(1) None by (simp add: st1_def)
    have ih: "src_frame (files st1) (files st')
         \<and> (\<forall>p. os_path_exists p (files st1) \<longrightarrow> os_path_exists p (files st'))
         \<and> (\<forall>s\<in>set ss. settled ex specs s st')"
      using Cons.IH [OF run rels] .
    have "settled ex specs s st'"
      using None by (simp add: settled_def)
    then show ?thesis
      using ih f1 by simp
  next
    case (Some sp)
    obtain r st1 where g: "generate_test_file ex s sp False v st = (r, st1)"
      by (cases "generate_test_file ex s sp False v st")
    have rnone: "r = None"
      using Cons.prems(1) Some g by (cases r) simp_all
    have run: "generate_all ex specs False v ss st1 = (None, st')"
      using Cons.prems(1) Some g rnone by simp
    have g': "generate_test_file ex s sp False v st = (None, st1)"
      using g rnone by simp
    note step = generate_test_file_step [OF g' rel]
    have ih: "src_frame (files st1) (files st')
         \<and> (\<forall>p. os_path_exists p (files st1) \<longrightarrow> os_path_exists p (files st'))
         \<and> (\<forall>s\<in>set ss. settled ex specs s st')"
      using Cons.IH [OF run rels] .
    have s1: "settled ex specs s st1"
      using step(3) Some by (simp add: settled_def)
    have "settled ex specs s st'"
      using settled_frame [OF _ rel _ s1] ih by blast
    moreover have "src_frame (files st) (files st')"
      using src_frame_trans [OF step(1)] ih by blast
    moreover have "\<forall>p. os_path_exists p (files st) \<longrightarrow> os_path_exists p (files st')"
      using step(2) ih by blast
    ultimately show ?thesis
      using ih by simp
  qed
qed

lemma generate_all_settled:
  assumes "\<forall>s\<in>set ss. settled ex specs s st"
  shows "fst (generate_all ex specs False v ss st) = None
         \<and> files (snd (generate_all ex specs False v ss st)) = files st"
  using assms
proof (induction ss arbitrary: st)
  case Nil
  then show ?case by simp
next
  case (Cons s ss)
  show ?case
  proof (cases "specs s")
    case None
    define st1 where "st1 = (if v then print (''No test specs found for src/'' @ s @ ''.py'') st
                             else st)"
    have f1: "files st1 = files st"
      by (simp add: st1_def print_def)
    have "\<forall>s\<in>set ss. settled ex specs s st1"
      using Cons.prems settled_files [OF f1] by simp
    from Cons.IH [OF this] show ?thesis
      using None f1 by (simp add: st1_def)
  next
    case (Some sp)
    obtain r st1 where g: "generate_test_file ex s sp False v st = (r, st1)"
      by (cases "generate_test_file ex s sp False v st")
    have st: "os_path_exists (test_filepath_of s) (files st)
              \<or> fst (validate_function ex s (function_name sp) False st) = Inr False"
      using Cons.prems Some by (simp add: settled_def)
    have vv: "fst (validate_function ex s (function_name sp) v st)
              = fst (validate_function ex s (function_name sp) False st)"
      by (rule validate_function_fst_cong) simp
    have rnone: "r = None"
      using generate_test_file_fst [of ex s sp False v st] g st vv by auto
    have f1: "files st1 = files st"
      using generate_test_file_files [of ex s sp False v st] g st vv by auto
    have "\<forall>s\<in>set ss. settled ex specs s st1"
      using Cons.prems settled_files [OF f1] by simp
    from Cons.IH [OF this] show ?thesis
      using Some g rnone f1 by simp
  qed
qed

lemma clean_orphan_frame: "src_frame (files st) (files (clean_orphan S v t st))"
proof -
  have "\<not> startswith (os_path_join ''tests'' (t @ ''.py'')) ''src/''"
    using os_path_join_tests_cases [of "t @ ''.py''"] tests_not_src by blast
  then show ?thesis
    by (simp add: clean_orphan_def Let_def print_def src_frame_remove src_frame_refl)
qed

lemma fold_clean_orphan_frame:
  "src_frame (files st) (files (fold (clean_orphan S v) ts st))"
proof (induction ts arbitrary: st)
  case Nil
  then show ?case by (simp add: src_frame_refl)
next
  case (Cons t ts)
  show ?case
    using src_frame_trans [OF clean_orphan_frame [of st S v t] Cons.IH [of "clean_orphan S v t st"]]
    by simp
qed

lemma clean_orphaned_tests_frame:
  "src_frame (files st) (files (clean_orphaned_tests S v st))"
  by (simp add: clean_orphaned_tests_def Let_def fold_clean_orphan_frame)

lemma fold_clean_orphan_idle:
  assumes "\<forall>t\<in>set ts. t \<in> set S
             \<or> \<not> os_path_exists (os_path_join ''tests'' (t @ ''.py'')) (files st)"
  shows "files (fold (clean_orphan S v) ts st) = files st"
  using assms
proof (induction ts arbitrary: st)
  case Nil
  then show ?case by simp
next
  case (Cons t ts)
  have f1: "files (clean_orphan S v t st) = files st"
    using Cons.prems by (auto simp add: clean_orphan_def Let_def print_def)
  have "\<forall>u\<in>set ts. u \<in> set S
          \<or> \<not> os_path_exists (os_path_join ''tests'' (u @ ''.py''))
                (files (clean_orphan S v t st))"
    unfolding f1 using Cons.prems by simp
  from Cons.IH [OF this] show ?case
    using f1 by simp
qed

subsection \<open>The second run\<close>

text \<open>
  C6, as stated, fails: not every starting state lets a run end without an exception. A
  solution with a spec entry whose code leaves through \<open>SystemExit\<close> while it is loaded
  ends the first run with that exception, and the second run again.
\<close>

theorem second_run_raises_again:
  "main demo_exec demo_specs False False demo_exiting
     = (Some SystemExit, demo_exiting\<lparr>loaded := [''src/arrays/has_duplicate.py'']\<rparr>)
   \<and> fst (main demo_exec demo_specs False False
            (snd (main demo_exec demo_specs False False demo_exiting)))
       = Some SystemExit"
  by code_simp

text \<open>
  C6, amended. Let a first run with \<open>force\<close> unset end without an exception, from a
  state in which no solution identifier starts with \<open>/\<close>, and let the sweep of the second
  run find nothing to remove (every test identifier is a solution identifier, or the file
  \<open>tests/<identifier>.py\<close> that the sweep looks for does not exist). Then the second run
  with \<open>force\<close> unset ends without an exception and leaves every file as it is: every
  solution with a spec entry is skipped because its target exists, or is refused again by
  validation.
\<close>

theorem second_run_changes_nothing:
  assumes "main ex specs False verbose st0 = (None, st1)"
    and "\<forall>s\<in>set (get_src_files ''src'' (files st0)). \<not> startswith s ''/''"
    and "\<forall>t\<in>set (get_test_files ''tests'' (files st1)).
           t \<in> set (get_src_files ''src'' (files st1))
           \<or> \<not> os_path_exists (os_path_join ''tests'' (t @ ''.py'')) (files st1)"
  shows "fst (main ex specs False verbose' st1) = None
         \<and> files (snd (main ex specs False verbose' st1)) = files st1
         \<and> (\<forall>s\<in>set (get_src_files ''src'' (files st1)). \<forall>sp. specs s = Some sp \<longrightarrow>
               os_path_exists (test_filepath_of s) (files st1)
               \<or> fst (validate_function ex s (function_name sp) verbose' st1) = Inr False)"
proof -
  define S where "S = get_src_files ''src'' (files st0)"
  define sta where "sta = (if verbose
      then print (''Found source files: '' @ repr (PyList (map PyStr S))) st0 else st0)"
  define stb where "stb = clean_orphaned_tests S verbose sta"
  have run1: "generate_all ex specs False verbose S stb = (None, st1)"
    using assms(1) by (simp only: main_def Let_def S_def sta_def stb_def)
  have fa: "files sta = files st0"
    by (simp add: sta_def print_def)
  have frame_b: "src_frame (files st0) (files stb)"
    using clean_orphaned_tests_frame [of sta S verbose] by (simp add: stb_def fa)
  have rel: "\<forall>s\<in>set S. \<not> startswith s ''/''"
    using assms(2) by (simp add: S_def)
  note first = generate_all_first_run [OF run1 rel]
  have frame_1: "src_frame (files st0) (files st1)"
    using src_frame_trans [OF frame_b] first by blast
  have S1: "get_src_files ''src'' (files st1) = S"
    using src_frame_get_src_files [OF frame_1] by (simp add: S_def)
  have settled1: "\<forall>s\<in>set S. settled ex specs s st1"
    using first by blast
  define stc where "stc = (if verbose'
      then print (''Found source files: '' @ repr (PyList (map PyStr S))) st1 else st1)"
  define std where "std = clean_orphaned_tests S verbose' stc"
  have fc: "files stc = files st1"
    by (simp add: stc_def print_def)
  have idle: "\<forall>t\<in>set (get_test_files ''tests'' (files stc)).
           t \<in> set S \<or> \<not> os_path_exists (os_path_join ''tests'' (t @ ''.py'')) (files stc)"
    using assms(3) unfolding S1 fc .
  have fd: "files std = files st1"
    using fold_clean_orphan_idle [OF idle, of verbose'] fc
    by (simp add: std_def clean_orphaned_tests_def Let_def)
  have settled_d: "\<forall>s\<in>set S. settled ex specs s std"
    using settled1 settled_files [OF fd] by simp
  have run2: "main ex specs False verbose' st1 = generate_all ex specs False verbose' S std"
    by (simp only: main_def Let_def S1 stc_def std_def)
  have "fst (main ex specs False verbose' st1) = None
        \<and> files (snd (main ex specs False verbose' st1)) = files st1"
    unfolding run2 using generate_all_settled [OF settled_d, of verbose'] fd by simp
  moreover have "\<forall>s\<in>set (get_src_files ''src'' (files st1)). \<forall>sp. specs s = Some sp \<longrightarrow>
               os_path_exists (test_filepath_of s) (files st1)
               \<or> fst (validate_function ex s (function_name sp) verbose' st1) = Inr False"
  proof (intro ballI allI impI)
    fix s sp
    assume "s \<in> set (get_src_files ''src'' (files st1))" and sp: "specs s = Some sp"
    then have "settled ex specs s st1"
      using settled1 S1 by simp
    moreover have "fst (validate_function ex s (function_name sp) verbose' st1)
                   = fst (validate_function ex s (function_name sp) False st1)"
      by (rule validate_function_fst_cong) simp
    ultimately show "os_path_exists (test_filepath_of s) (files st1)
               \<or> fst (validate_function ex s (function_name sp) verbose' st1) = Inr False"
      using sp by (simp add: settled_def)
  qed
  ultimately show ?thesis by blast
qed

theorem second_run_changes_nothing_witness:
  "main demo_exec demo_specs False False demo_fresh = (None, demo_done)
   \<and> fst (main demo_exec demo_specs False True demo_done) = None
   \<and> files (snd (main demo_exec demo_specs False True demo_done)) = files demo_done"
proof -
  have a: "main demo_exec demo_specs False False demo_fresh = (None, demo_done)"
    by code_simp
  have b: "\<forall>s\<in>set (get_src_files ''src'' (files demo_fresh)). \<not> startswith s ''/''"
    by code_simp
  have c: "\<forall>t\<in>set (get_test_files ''tests'' (files demo_done)).
             t \<in> set (get_src_files ''src'' (files demo_done))
             \<or> \<not> os_path_exists (os_path_join ''tests'' (t @ ''.py'')) (files demo_done)"
    by code_simp
  show ?thesis
    using a second_run_changes_nothing [OF a b c, of True] by blast
qed

text \<open>
  The hypothesis on the sweep cannot be dropped. The solution \<open>src/test_a.py\<close> gets the
  test file \<open>tests/test_test_a.py\<close> in the first run; the second run gives that file the
  identifier \<open>a\<close>, which is no solution, and removes \<open>tests/a.py\<close>, a file the first run
  had left alone.
\<close>

lemma second_run_removes_file:
  "main demo_exec demo_specs_x False False demo_prefixed
     = (None,
        \<lparr>files = [(''src/test_a.py'', ''x = 1''), (''tests/a.py'', ''kept''),
                  (''tests/test_test_a.py'', ''from src.test_a import x\<newline>\<newline>'')],
         stdout = [''Generated tests/test_test_a.py''],
         loaded = [''src/test_a.py'']\<rparr>)
   \<and> main demo_exec demo_specs_x False False
         (snd (main demo_exec demo_specs_x False False demo_prefixed))
     = (None,
        \<lparr>files = [(''src/test_a.py'', ''x = 1''),
                  (''tests/test_test_a.py'', ''from src.test_a import x\<newline>\<newline>'')],
         stdout = [''Generated tests/test_test_a.py'',
                   ''Removed orphaned test file: tests/a.py''],
         loaded = [''src/test_a.py'']\<rparr>)"
  by code_simp

end
